theory Spec2Isabelle
  imports Complex_Main "HOL-Library.Log_Nat"
begin

section \<open>Data model of \<open>FlappyBirdGame.tsx\<close>\<close>

text \<open>
  The component keeps three pieces of React state (\<open>gameState\<close>, \<open>score\<close>,
  \<open>highScore\<close>), one mutable ref holding the bird, the pipes and the particles, and
  one entry of \<open>localStorage\<close>. The model bundles them into the record \<open>game\<close>; every
  handler of the component takes the record and returns the updated one.

  A JavaScript \<open>number\<close> is modelled by a real number. The arithmetic of \<open>generatePipe\<close>
  is done in binary64, each operation rounded to the nearest double with ties to even
  (\<open>round64\<close> below), because the bounds of the pipe it returns depend on the rounding;
  elsewhere the results of the operations are taken as exact. \<open>score\<close> only ever holds \<open>0\<close>
  and results of \<open>prev + 1\<close>, and \<open>highScore\<close> only results of \<open>parseInt\<close> and values of
  \<open>score\<close>, so the first is an \<open>int\<close> and the second an integer or \<open>NaN\<close>.

  The interfaces \<open>Bird\<close>, \<open>Pipe\<close> and \<open>Particle\<close> all have a field \<open>x\<close>; the record
  fields carry a prefix to keep them apart (\<open>bird_x\<close>, \<open>pipe_x\<close>, \<open>part_x\<close>), and
  \<open>Particle.velocity\<close> is flattened into \<open>vel_x\<close> and \<open>vel_y\<close>.
\<close>

record Bird =
  bird_x :: real
  bird_y :: real
  velocity :: real
  rotation :: real

record Pipe =
  pipe_x :: real
  topHeight :: real
  bottomY :: real
  passed :: bool

record Particle =
  part_x :: real
  part_y :: real
  vel_x :: real
  vel_y :: real
  life :: real
  maxLife :: real

datatype GameState = Menu | Playing | GameOver

datatype jsnum = NaN | Num int

record game =
  gameState :: GameState
  score :: int
  highScore :: jsnum
  bird :: Bird
  pipes :: "Pipe list"
  particles :: "Particle list"
  storage :: "string option"

definition CANVAS_WIDTH :: real where "CANVAS_WIDTH = 800"
definition CANVAS_HEIGHT :: real where "CANVAS_HEIGHT = 600"
definition BIRD_SIZE :: real where "BIRD_SIZE = 30"
definition PIPE_WIDTH :: real where "PIPE_WIDTH = 80"
definition PIPE_GAP :: real where "PIPE_GAP = 200"
definition GRAVITY :: real where "GRAVITY = 0.6"
definition JUMP_FORCE :: real where "JUMP_FORCE = - 12"
definition PIPE_SPEED :: real where "PIPE_SPEED = 3"

lemmas constants =
  CANVAS_WIDTH_def CANVAS_HEIGHT_def BIRD_SIZE_def PIPE_WIDTH_def PIPE_GAP_def
  GRAVITY_def JUMP_FORCE_def PIPE_SPEED_def

section \<open>Binary64 arithmetic\<close>

text \<open>
  \<open>roundEven\<close> rounds a real to the nearest integer, a tie going to the even one.
  \<open>exponent64 x\<close> is the exponent of the binade of \<open>x\<close>, not below \<open>- 1022\<close> (the
  subnormal range): it is read off the bit length of \<open>\<bar>x\<bar>\<close> counted in units of
  \<open>2^-1074\<close>, the least positive double. \<open>round64 x\<close> is the double nearest to \<open>x\<close>:
  \<open>x\<close> is rounded to a multiple of \<open>2^(exponent64 x - 52)\<close>. Overflow to \<open>Infinity\<close>
  is left out: no operation of \<open>generatePipe\<close> comes near \<open>2^1024\<close>. \<open>add64\<close>, \<open>sub64\<close>
  and \<open>mul64\<close> are the operators \<open>+\<close>, \<open>-\<close> and \<open>*\<close> on doubles.
\<close>

definition roundEven :: "real \<Rightarrow> int" where
  "roundEven x =
     (let f = \<lfloor>x\<rfloor>; d = x - of_int f
      in if d < 1 / 2 then f else if 1 / 2 < d then f + 1 else if even f then f else f + 1)"

definition scale1074 :: real where
  "scale1074 = 2 ^ 1074"

definition exponent64 :: "real \<Rightarrow> int" where
  "exponent64 x = max (- 1022) (bitlen \<lfloor>\<bar>x\<bar> * scale1074\<rfloor> - 1075)"

definition round64 :: "real \<Rightarrow> real" where
  "round64 x =
     sgn x * of_int (roundEven (\<bar>x\<bar> * 2 powi (52 - exponent64 x))) * 2 powi (exponent64 x - 52)"

definition add64 :: "real \<Rightarrow> real \<Rightarrow> real" where
  "add64 a b = round64 (a + b)"

definition sub64 :: "real \<Rightarrow> real \<Rightarrow> real" where
  "sub64 a b = round64 (a - b)"

definition mul64 :: "real \<Rightarrow> real \<Rightarrow> real" where
  "mul64 a b = round64 (a * b)"

section \<open>Collision test\<close>

text \<open>
  \<open>pipeCollision\<close> is the \<open>for (const pipe of pipes)\<close> loop of \<open>checkCollision\<close>: it
  returns at the first pipe that overlaps the bird horizontally and whose gap the bird
  leaves, and \<open>False\<close> when the loop runs out.
\<close>

fun pipeCollision :: "Bird \<Rightarrow> Pipe list \<Rightarrow> bool" where
  "pipeCollision b [] = False"
| "pipeCollision b (pipe # rest) =
     (if bird_x b + BIRD_SIZE / 2 > pipe_x pipe \<and>
         bird_x b - BIRD_SIZE / 2 < pipe_x pipe + PIPE_WIDTH
      then (if bird_y b - BIRD_SIZE / 2 < topHeight pipe \<or>
               bird_y b + BIRD_SIZE / 2 > bottomY pipe
            then True
            else pipeCollision b rest)
      else pipeCollision b rest)"

definition checkCollision :: "Bird \<Rightarrow> Pipe list \<Rightarrow> bool" where
  "checkCollision b ps =
     (if bird_y b + BIRD_SIZE / 2 \<ge> CANVAS_HEIGHT - 50 then True
      else if bird_y b - BIRD_SIZE / 2 \<le> 0 then True
      else pipeCollision b ps)"

section \<open>The persisted best score\<close>

text \<open>
  \<open>parseInt\<close> is the built-in of the language, called with one argument, so with no
  radix. It is modelled after its definition in the ECMAScript standard: leading white
  space is dropped, one sign is read, a prefix \<open>0x\<close> or \<open>0X\<close> selects radix 16 (radix
  10 otherwise), the longest run of digits of the radix is read, and the result is \<open>NaN\<close>
  when that run is empty. Strings are lists of 8-bit code units, so the white space of the
  model is the white space below U+0100. The result is the mathematical integer; a double
  holds it exactly up to \<open>2^53\<close>, which covers every string of at most 15 digits.
\<close>

definition isWhiteSpace :: "char \<Rightarrow> bool" where
  "isWhiteSpace c = (c \<in> set [CHR 0x09, CHR 0x0A, CHR 0x0B, CHR 0x0C, CHR 0x0D, CHR 0x20, CHR 0xA0])"

definition digitValue :: "char \<Rightarrow> nat option" where
  "digitValue c =
     (let n = (of_char c :: nat) in
      if 48 \<le> n \<and> n \<le> 57 then Some (n - 48)
      else if 97 \<le> n \<and> n \<le> 122 then Some (n - 87)
      else if 65 \<le> n \<and> n \<le> 90 then Some (n - 55)
      else None)"

definition radixDigit :: "nat \<Rightarrow> char \<Rightarrow> bool" where
  "radixDigit R c = (case digitValue c of None \<Rightarrow> False | Some d \<Rightarrow> d < R)"

definition mathInt :: "nat \<Rightarrow> string \<Rightarrow> nat" where
  "mathInt R Z = foldl (\<lambda>acc c. acc * R + (case digitValue c of None \<Rightarrow> 0 | Some d \<Rightarrow> d)) 0 Z"

definition parseInt :: "string \<Rightarrow> jsnum" where
  "parseInt str =
     (let S = dropWhile isWhiteSpace str;
          sign = (if S \<noteq> [] \<and> hd S = CHR ''-'' then - 1 else 1 :: int);
          S1 = (if S \<noteq> [] \<and> (hd S = CHR ''+'' \<or> hd S = CHR ''-'') then tl S else S);
          hex = (take 2 S1 = ''0x'' \<or> take 2 S1 = ''0X'');
          R = (if hex then 16 else 10);
          S2 = (if hex then drop 2 S1 else S1);
          Z = takeWhile (radixDigit R) S2
      in if Z = [] then NaN else Num (sign * int (mathInt R Z)))"

text \<open>
  The initialiser of the \<open>highScore\<close> state: \<open>saved ? parseInt(saved) : 0\<close>, where
  \<open>saved\<close> is \<open>null\<close> (here \<open>None\<close>) or a string, and the empty string is falsy.
\<close>

definition initHighScore :: "string option \<Rightarrow> jsnum" where
  "initHighScore saved =
     (case saved of
        None \<Rightarrow> Num 0
      | Some str \<Rightarrow> if str = [] then Num 0 else parseInt str)"

text \<open>\<open>score.toString()\<close>: the decimal digits of an integer.\<close>

fun digits :: "nat \<Rightarrow> string" where
  "digits n =
     (if n < 10 then [''0123456789'' ! n]
      else digits (n div 10) @ [''0123456789'' ! (n mod 10)])"

declare digits.simps [simp del]

definition toString :: "int \<Rightarrow> string" where
  "toString n = (if n < 0 then CHR ''-'' # digits (nat (- n)) else digits (nat n))"

text \<open>\<open>score > highScore\<close>: a comparison with \<open>NaN\<close> is false.\<close>

definition gtNum :: "int \<Rightarrow> jsnum \<Rightarrow> bool" where
  "gtNum a h = (case h of NaN \<Rightarrow> False | Num b \<Rightarrow> a > b)"

section \<open>The component's state and its handlers\<close>

text \<open>
  The state at mount: \<open>gameState = 'menu'\<close>, \<open>score = 0\<close>, the best score read from the
  store, and the initial value of \<open>gameStateRef\<close>.
\<close>

definition initialGame :: "string option \<Rightarrow> game" where
  "initialGame store =
     \<lparr>gameState = Menu, score = 0, highScore = initHighScore store,
      bird = \<lparr>bird_x = 150, bird_y = CANVAS_HEIGHT / 2, velocity = 0, rotation = 0\<rparr>,
      pipes = [], particles = [], storage = store\<rparr>"

definition resetGame :: "game \<Rightarrow> game" where
  "resetGame s =
     s\<lparr>bird := \<lparr>bird_x = 150, bird_y = CANVAS_HEIGHT / 2, velocity = 0, rotation = 0\<rparr>,
       pipes := [], particles := [], score := 0\<rparr>"

text \<open>
  \<open>Math.random()\<close> is a parameter: a function \<open>rnd\<close> whose value at \<open>n\<close> is the result
  of the \<open>n\<close>-th call made by the handler. \<open>addParticles\<close> makes two calls for each
  particle it pushes.
\<close>

fun addParticles :: "real \<Rightarrow> real \<Rightarrow> nat \<Rightarrow> (nat \<Rightarrow> real) \<Rightarrow> Particle list \<Rightarrow> Particle list" where
  "addParticles x y 0 rnd ps = ps"
| "addParticles x y (Suc count) rnd ps =
     addParticles x y count (\<lambda>n. rnd (n + 2))
       (ps @ [\<lparr>part_x = x, part_y = y,
               vel_x = (rnd 0 - 0.5) * 8, vel_y = (rnd 1 - 0.5) * 8 - 2,
               life = 30, maxLife = 30\<rparr>])"

text \<open>
  \<open>generatePipe r\<close> is \<open>generatePipe()\<close> when \<open>Math.random()\<close> answers \<open>r\<close>, with every
  operation of the source in binary64.
\<close>

definition generatePipe :: "real \<Rightarrow> Pipe" where
  "generatePipe r =
     (let minHeight = 50;
          maxHeight = sub64 (sub64 CANVAS_HEIGHT PIPE_GAP) minHeight;
          top = add64 (mul64 r (sub64 maxHeight minHeight)) minHeight
      in \<lparr>pipe_x = CANVAS_WIDTH, topHeight = top, bottomY = add64 top PIPE_GAP, passed = False\<rparr>)"

definition jump :: "(nat \<Rightarrow> real) \<Rightarrow> game \<Rightarrow> game" where
  "jump rnd s =
     (if gameState s = Menu then resetGame (s\<lparr>gameState := Playing\<rparr>)
      else if gameState s = Playing then
        s\<lparr>bird := (bird s)\<lparr>velocity := JUMP_FORCE\<rparr>,
          particles := addParticles (bird_x (bird s) - BIRD_SIZE / 2)
                         (bird_y (bird s) + BIRD_SIZE / 2) 5 rnd (particles s)\<rparr>
      else if gameState s = GameOver then resetGame (s\<lparr>gameState := Playing\<rparr>)
      else s)"

section \<open>The simulation step\<close>

text \<open>
  The pipe loop of \<open>gameLoop\<close> runs \<open>i\<close> from \<open>pipes.length - 1\<close> down to \<open>0\<close>. In
  \<open>updatePipes bx n ps sc\<close> the indices below \<open>n\<close> are still to be visited, \<open>bx\<close> is
  \<open>bird.x\<close> and \<open>sc\<close> the score with the updates \<open>prev + 1\<close> queued so far applied.
  \<open>spliceAt i\<close> is \<open>pipes.splice(i, 1)\<close>. The loop only removes the entry it is visiting, so
  every index it reads is in range (lemma \<open>updatePipes_eq\<close> covers all such runs).
\<close>

definition spliceAt :: "nat \<Rightarrow> 'a list \<Rightarrow> 'a list" where
  "spliceAt i xs = take i xs @ drop (Suc i) xs"

definition movePipe :: "Pipe \<Rightarrow> Pipe" where
  "movePipe pipe = pipe\<lparr>pipe_x := pipe_x pipe - PIPE_SPEED\<rparr>"

definition scores :: "real \<Rightarrow> Pipe \<Rightarrow> bool" where
  "scores bx pipe = (\<not> passed pipe \<and> pipe_x pipe + PIPE_WIDTH < bx)"

definition markPipe :: "real \<Rightarrow> Pipe \<Rightarrow> Pipe" where
  "markPipe bx pipe = (if scores bx pipe then pipe\<lparr>passed := True\<rparr> else pipe)"

definition offScreen :: "Pipe \<Rightarrow> bool" where
  "offScreen pipe = (pipe_x pipe + PIPE_WIDTH < 0)"

fun updatePipes :: "real \<Rightarrow> nat \<Rightarrow> Pipe list \<Rightarrow> int \<Rightarrow> Pipe list \<times> int" where
  "updatePipes bx 0 ps sc = (ps, sc)"
| "updatePipes bx (Suc i) ps sc =
     (let moved = movePipe (ps ! i);
          sc' = (if scores bx moved then sc + 1 else sc);
          pipe = markPipe bx moved;
          ps' = (if offScreen pipe then spliceAt i ps else ps[i := pipe])
      in updatePipes bx i ps' sc')"

text \<open>The particle loop of \<open>gameLoop\<close>, with the same backward index.\<close>

definition moveParticle :: "Particle \<Rightarrow> Particle" where
  "moveParticle p =
     p\<lparr>part_x := part_x p + vel_x p, part_y := part_y p + vel_y p,
       vel_y := vel_y p + 0.3, life := life p - 1\<rparr>"

fun updateParticles :: "nat \<Rightarrow> Particle list \<Rightarrow> Particle list" where
  "updateParticles 0 ps = ps"
| "updateParticles (Suc i) ps =
     (let particle = moveParticle (ps ! i);
          ps' = (if life particle \<le> 0 then spliceAt i ps else ps[i := particle])
      in updateParticles i ps')"

definition updateBird :: "Bird \<Rightarrow> Bird" where
  "updateBird b =
     (let v = velocity b + GRAVITY;
          y = bird_y b + v
      in b\<lparr>velocity := v, bird_y := y, rotation := min (max (v * 3) (- 30)) 90\<rparr>)"

text \<open>
  \<open>playingStep\<close> is the body of \<open>if (gameState === 'playing')\<close>. The handler reads
  \<open>score\<close> and \<open>highScore\<close> from its closure, that is the values of the state the tick
  started in: the updates \<open>setScore(prev => prev + 1)\<close> of the pipe loop reach the state
  but not the \<open>score\<close> compared with \<open>highScore\<close> and written to the store.
\<close>

definition playingStep :: "(nat \<Rightarrow> real) \<Rightarrow> game \<Rightarrow> game" where
  "playingStep rnd s =
     (let b = updateBird (bird s);
          (ps1, sc1) = updatePipes (bird_x b) (length (pipes s)) (pipes s) (score s);
          spawn = (if ps1 = [] then True else pipe_x (last ps1) < CANVAS_WIDTH - 300);
          ps2 = (if spawn then ps1 @ [generatePipe (rnd 0)] else ps1);
          rnd2 = (if spawn then (\<lambda>n. rnd (Suc n)) else rnd);
          s1 = s\<lparr>bird := b, pipes := ps2, score := sc1\<rparr>
      in if checkCollision b ps2 then
           (let s2 = s1\<lparr>gameState := GameOver,
                       particles := addParticles (bird_x b) (bird_y b) 15 rnd2 (particles s)\<rparr>
            in if gtNum (score s) (highScore s)
               then s2\<lparr>highScore := Num (score s), storage := Some (toString (score s))\<rparr>
               else s2)
         else s1)"

text \<open>
  \<open>gameLoop\<close> returns at once when the canvas or its 2d context is missing
  (\<open>surface = False\<close>). Otherwise it runs the playing step in state \<open>playing\<close>, then the
  particle loop (\<open>particleStep\<close>) in every state, then draws; drawing reads the state and
  changes none of it, so it has no part in the model. Each handler is taken to run on the
  state the previous one left, that is React has re-rendered in between.
\<close>

definition particleStep :: "game \<Rightarrow> game" where
  "particleStep s = s\<lparr>particles := updateParticles (length (particles s)) (particles s)\<rparr>"

definition gameLoop :: "bool \<Rightarrow> (nat \<Rightarrow> real) \<Rightarrow> game \<Rightarrow> game" where
  "gameLoop surface rnd s =
     (if \<not> surface then s
      else particleStep (if gameState s = Playing then playingStep rnd s else s))"

text \<open>
  The states the component can be in: the state at mount, for any content of the store,
  and the states reached from it by activate events (\<open>jump\<close>) and ticks (\<open>gameLoop\<close>),
  with every result of \<open>Math.random()\<close> in \<open>[0, 1)\<close>.
\<close>

inductive reachable :: "game \<Rightarrow> bool" where
  mount: "reachable (initialGame store)"
| activate: "reachable s \<Longrightarrow> (\<And>n. 0 \<le> rnd n \<and> rnd n < 1) \<Longrightarrow> reachable (jump rnd s)"
| tick: "reachable s \<Longrightarrow> (\<And>n. 0 \<le> rnd n \<and> rnd n < 1) \<Longrightarrow> reachable (gameLoop surface rnd s)"

section \<open>The value of a decimal string\<close>


section \<open>Example inputs\<close>

text \<open>A random source that always answers \<open>0.5\<close>, and states to run the handlers on.\<close>

definition halfRandom :: "nat \<Rightarrow> real" where
  "halfRandom n = 1 / 2"

text \<open>The greatest double below \<open>1\<close>.\<close>

definition nearOne :: real where
  "nearOne = 1 - 1 / 2 ^ 53"



definition scoringGame :: game where
  "scoringGame =
     \<lparr>gameState = Playing, score = 3, highScore = Num 5,
      bird = \<lparr>bird_x = 150, bird_y = 300, velocity = 0, rotation = 0\<rparr>,
      pipes = [\<lparr>pipe_x = - 78, topHeight = 100, bottomY = 300, passed = False\<rparr>,
               \<lparr>pipe_x = 71, topHeight = 200, bottomY = 400, passed = False\<rparr>,
               \<lparr>pipe_x = 374, topHeight = 150, bottomY = 350, passed = False\<rparr>],
      particles = [], storage = Some ''5''\<rparr>"

definition exitingGame :: game where
  "exitingGame =
     \<lparr>gameState = Playing, score = 2, highScore = Num 5,
      bird = \<lparr>bird_x = 150, bird_y = 300, velocity = 0, rotation = 0\<rparr>,
      pipes = [\<lparr>pipe_x = - 78, topHeight = 100, bottomY = 300, passed = True\<rparr>,
               \<lparr>pipe_x = 2, topHeight = 200, bottomY = 400, passed = True\<rparr>,
               \<lparr>pipe_x = 305, topHeight = 150, bottomY = 350, passed = False\<rparr>,
               \<lparr>pipe_x = 608, topHeight = 250, bottomY = 450, passed = False\<rparr>],
      particles = [], storage = Some ''5''\<rparr>"

definition gameOverGame :: game where
  "gameOverGame =
     \<lparr>gameState = GameOver, score = 4, highScore = Num 5,
      bird = \<lparr>bird_x = 150, bird_y = 536, velocity = 9, rotation = 27\<rparr>,
      pipes = [\<lparr>pipe_x = 500, topHeight = 100, bottomY = 300, passed = False\<rparr>],
      particles = [\<lparr>part_x = 150, part_y = 536, vel_x = 2, vel_y = - 3, life = 30, maxLife = 30\<rparr>,
                   \<lparr>part_x = 140, part_y = 500, vel_x = 1, vel_y = 4, life = 1, maxLife = 30\<rparr>],
      storage = Some ''5''\<rparr>"

text \<open>
  A first run, on an empty store: the next tick takes the trailing edge of the first pipe
  past the bird, and the bird out of the gap downwards.
\<close>

definition staleScoreGame :: game where
  "staleScoreGame =
     \<lparr>gameState = Playing, score = 0, highScore = Num 0,
      bird = \<lparr>bird_x = 150, bird_y = 276, velocity = 9.6, rotation = 28.8\<rparr>,
      pipes = [\<lparr>pipe_x = 71, topHeight = 100, bottomY = 300, passed = False\<rparr>,
               \<lparr>pipe_x = 374, topHeight = 200, bottomY = 400, passed = False\<rparr>,
               \<lparr>pipe_x = 677, topHeight = 150, bottomY = 350, passed = False\<rparr>],
      particles = [], storage = None\<rparr>"

section \<open>The loops as maps and filters\<close>

text \<open>
  Started at the length of the list, each backward loop visits every entry once: it is
  a \<open>map\<close> of the loop body followed by a \<open>filter\<close> of the entries it keeps.
\<close>

lemma spliceAt_take: "n \<le> length ps \<Longrightarrow> take n (spliceAt n ps) = take n ps"
  by (simp add: spliceAt_def)

lemma spliceAt_drop: "n \<le> length ps \<Longrightarrow> drop n (spliceAt n ps) = drop (Suc n) ps"
  by (simp add: spliceAt_def)

lemma update_drop: "n < length ps \<Longrightarrow> drop n (ps[n := v]) = v # drop (Suc n) ps"
  by (simp add: drop_update_swap [symmetric] Cons_nth_drop_Suc [symmetric])

lemma updatePipes_eq:
  "n \<le> length ps \<Longrightarrow>
   updatePipes bx n ps sc =
     (filter (\<lambda>q. \<not> offScreen q) (map (\<lambda>p. markPipe bx (movePipe p)) (take n ps)) @ drop n ps,
      sc + int (length (filter (\<lambda>p. scores bx (movePipe p)) (take n ps))))"
proof (induction n arbitrary: ps sc)
  case 0
  then show ?case by simp
next
  case (Suc n)
  then have n: "n < length ps" by simp
  have tk: "take (Suc n) ps = take n ps @ [ps ! n]"
    using n by (simp add: take_Suc_conv_app_nth)
  show ?case
  proof (cases "offScreen (markPipe bx (movePipe (ps ! n)))")
    case True
    have le: "n \<le> length (spliceAt n ps)" using n by (simp add: spliceAt_def)
    show ?thesis
      using True n Suc.IH [OF le]
      by (simp add: Let_def tk spliceAt_take spliceAt_drop)
  next
    case False
    have le: "n \<le> length (ps[n := markPipe bx (movePipe (ps ! n))])" using n by simp
    show ?thesis
      using False n Suc.IH [OF le]
      by (simp add: Let_def tk update_drop)
  qed
qed

lemma updateParticles_eq:
  "n \<le> length ps \<Longrightarrow>
   updateParticles n ps =
     filter (\<lambda>q. \<not> life q \<le> 0) (map moveParticle (take n ps)) @ drop n ps"
proof (induction n arbitrary: ps)
  case 0
  then show ?case by simp
next
  case (Suc n)
  then have n: "n < length ps" by simp
  have tk: "take (Suc n) ps = take n ps @ [ps ! n]"
    using n by (simp add: take_Suc_conv_app_nth)
  show ?case
  proof (cases "life (moveParticle (ps ! n)) \<le> 0")
    case True
    have le: "n \<le> length (spliceAt n ps)" using n by (simp add: spliceAt_def)
    show ?thesis
      using True n Suc.IH [OF le]
      by (simp add: Let_def tk spliceAt_take spliceAt_drop)
  next
    case False
    have le: "n \<le> length (ps[n := moveParticle (ps ! n)])" using n by simp
    show ?thesis
      using False n Suc.IH [OF le]
      by (simp add: Let_def tk update_drop)
  qed
qed

lemma addParticles_eq:
  "addParticles x y n rnd ps =
     ps @ map (\<lambda>i. \<lparr>part_x = x, part_y = y,
                    vel_x = (rnd (2 * i) - 1 / 2) * 8, vel_y = (rnd (2 * i + 1) - 1 / 2) * 8 - 2,
                    life = 30, maxLife = 30\<rparr>) [0..<n]"
proof (induction n arbitrary: rnd ps)
  case 0
  then show ?case by simp
next
  case (Suc n)
  have "[0..<Suc n] = 0 # map Suc [0..<n]"
    by (simp add: upt_conv_Cons map_Suc_upt del: upt_Suc)
  then show ?case
    by (simp add: Suc.IH comp_def add.commute del: upt_Suc)
qed

lemma upt_5: "[0..<5] = [0, 1, 2, 3, 4]"
  by (simp add: upt_rec)

section \<open>The loop bodies\<close>

lemma markMove:
  "markPipe bx (movePipe p) =
     p\<lparr>pipe_x := pipe_x p - 3, passed := passed p \<or> pipe_x p - 3 + 80 < bx\<rparr>"
  by (cases p) (auto simp: markPipe_def movePipe_def scores_def constants)

lemma scoresMove: "scores bx (movePipe p) = (\<not> passed p \<and> pipe_x p - 3 + 80 < bx)"
  by (simp add: movePipe_def scores_def constants)

lemma offScreen_iff: "offScreen q = (pipe_x q + 80 < 0)"
  by (simp add: offScreen_def constants)

lemma moveParticle_eq:
  "moveParticle =
     (\<lambda>p. p\<lparr>part_x := part_x p + vel_x p, part_y := part_y p + vel_y p,
             vel_y := vel_y p + 3 / 10, life := life p - 1\<rparr>)"
  by (rule ext) (simp add: moveParticle_def)

section \<open>Rounding to binary64\<close>

lemma roundEven_of_int [simp]: "roundEven (of_int n) = n"
  by (simp add: roundEven_def)

lemma roundEven_bounds: "of_int (roundEven x) \<le> x + 1 / 2" "x - 1 / 2 \<le> of_int (roundEven x)"
   "\<lfloor>x\<rfloor> \<le> roundEven x" "roundEven x \<le> \<lfloor>x\<rfloor> + 1"
  by (auto simp: roundEven_def Let_def) linarith+

lemma roundEven_mono:
  assumes "x \<le> y"
  shows "roundEven x \<le> roundEven y"
proof (cases "\<lfloor>x\<rfloor> = \<lfloor>y\<rfloor>")
  case True
  then show ?thesis using assms by (auto simp: roundEven_def Let_def)
next
  case False
  then have "\<lfloor>x\<rfloor> < \<lfloor>y\<rfloor>" using assms floor_mono [of x y] by linarith
  then have "roundEven x \<le> \<lfloor>y\<rfloor>" using roundEven_bounds(4) [of x] by linarith
  then show ?thesis using roundEven_bounds(3) [of y] by linarith
qed

lemma scale1074_pos: "0 < scale1074"
  by (simp add: scale1074_def)

lemma scale1074_div: "2 powi b / scale1074 = 2 powi (b - 1074)"
  by (simp add: scale1074_def power_int_diff)

lemma exponent64_ge: "- 1022 \<le> exponent64 x"
  by (simp add: exponent64_def)

lemma exponent64_upper:
  assumes "0 \<le> x"
  shows "x < 2 powi (exponent64 x + 1)"
proof -
  let ?n = "\<lfloor>x * scale1074\<rfloor>"
  let ?b = "bitlen ?n"
  have n0: "0 \<le> ?n" using assms scale1074_pos by simp
  have b0: "0 \<le> ?b" by (rule bitlen_nonneg)
  have "?n < 2 ^ nat ?b"
  proof (cases "?n = 0")
    case True then show ?thesis by simp
  next
    case False
    then have "0 < ?n" using n0 by linarith
    then show ?thesis using bitlen_bounds by blast
  qed
  then have "?n + 1 \<le> 2 ^ nat ?b" by linarith
  then have "(of_int (?n + 1) :: real) \<le> of_int (2 ^ nat ?b)" by (simp only: of_int_le_iff)
  moreover have "x * scale1074 < of_int (?n + 1)" by linarith
  ultimately have "x * scale1074 < of_int (2 ^ nat ?b)" by linarith
  then have "x * scale1074 < 2 powi ?b" using b0 by (simp add: power_int_def)
  then have "x < 2 powi ?b / scale1074" using scale1074_pos by (simp add: field_simps)
  also have "\<dots> = 2 powi (?b - 1074)" by (rule scale1074_div)
  also have "\<dots> \<le> 2 powi (exponent64 x + 1)"
    using assms by (intro power_int_increasing) (simp_all add: exponent64_def)
  finally show ?thesis .
qed

lemma exponent64_lower:
  assumes "0 \<le> x" "- 1022 < exponent64 x"
  shows "2 powi exponent64 x \<le> x"
proof -
  let ?n = "\<lfloor>x * scale1074\<rfloor>"
  let ?b = "bitlen ?n"
  have e: "exponent64 x = ?b - 1075"
    using assms by (simp add: exponent64_def max_def split: if_splits)
  then have b: "1 \<le> ?b" using assms(2) by linarith
  then have "0 < ?n" using bitlen_eq_zero_iff [of ?n] by linarith
  then have "2 ^ nat (?b - 1) \<le> ?n" using bitlen_bounds by blast
  then have "(of_int (2 ^ nat (?b - 1)) :: real) \<le> of_int ?n" by (simp only: of_int_le_iff)
  moreover have "of_int ?n \<le> x * scale1074" by linarith
  ultimately have "of_int (2 ^ nat (?b - 1)) \<le> x * scale1074" by linarith
  then have "2 powi (?b - 1) \<le> x * scale1074" using b by (simp add: power_int_def)
  then have "2 powi (?b - 1) / scale1074 \<le> x" using scale1074_pos by (simp add: field_simps)
  moreover have "2 powi (?b - 1) / scale1074 = 2 powi (?b - 1 - 1074)" by (rule scale1074_div)
  ultimately show ?thesis using e by simp
qed

lemma exponent64_eq:
  assumes "0 \<le> x" "- 1022 \<le> e" "2 powi e \<le> x" "x < 2 powi (e + 1)"
  shows "exponent64 x = e"
proof -
  have "(2::real) powi e < 2 powi (exponent64 x + 1)"
    using assms(3) exponent64_upper [OF assms(1)] by linarith
  then have 1: "e \<le> exponent64 x"
    using power_int_increasing [of "exponent64 x + 1" e "2::real"] by (cases "e \<le> exponent64 x") auto
  have 2: "exponent64 x \<le> e"
  proof (cases "- 1022 < exponent64 x")
    case True
    then have "(2::real) powi exponent64 x < 2 powi (e + 1)"
      using exponent64_lower [OF assms(1)] assms(4) by linarith
    then show ?thesis
      using power_int_increasing [of "e + 1" "exponent64 x" "2::real"]
      by (cases "exponent64 x \<le> e") auto
  next
    case False
    then show ?thesis using exponent64_ge [of x] assms(2) by linarith
  qed
  from 1 2 show ?thesis by simp
qed

lemma round64_binade:
  assumes "0 < x" "- 1022 \<le> e" "2 powi e \<le> x" "x < 2 powi (e + 1)"
  shows "round64 x = of_int (roundEven (x * 2 powi (52 - e))) * 2 powi (e - 52)"
proof -
  have "exponent64 x = e" using assms by (intro exponent64_eq) simp_all
  then show ?thesis using assms(1) by (simp add: round64_def)
qed

lemma round64_0 [simp]: "round64 0 = 0"
  by (simp add: round64_def)

lemma powi_mult: "a + b = c \<Longrightarrow> (2::real) powi a * 2 powi b = 2 powi c"
  by (auto simp: power_int_add)

lemma round64_nonneg:
  assumes "0 \<le> y"
  shows "0 \<le> round64 y"
proof -
  have "0 \<le> \<bar>y\<bar> * 2 powi (52 - exponent64 y)" by simp
  then have "0 \<le> \<lfloor>\<bar>y\<bar> * 2 powi (52 - exponent64 y)\<rfloor>" by simp
  then have "0 \<le> roundEven (\<bar>y\<bar> * 2 powi (52 - exponent64 y))"
    using roundEven_bounds(3) [of "\<bar>y\<bar> * 2 powi (52 - exponent64 y)"] by linarith
  then show ?thesis using assms by (simp add: round64_def sgn_if)
qed

lemma round64_mono:
  assumes "0 \<le> x" "x \<le> y"
  shows "round64 x \<le> round64 y"
proof (cases "x = 0")
  case True
  then show ?thesis using round64_nonneg [of y] assms by simp
next
  case False
  then have x: "0 < x" and y: "0 < y" using assms by linarith+
  let ?ex = "exponent64 x" and ?ey = "exponent64 y"
  have rx: "round64 x = of_int (roundEven (x * 2 powi (52 - ?ex))) * 2 powi (?ex - 52)"
    using x by (simp add: round64_def)
  have ry: "round64 y = of_int (roundEven (y * 2 powi (52 - ?ey))) * 2 powi (?ey - 52)"
    using y by (simp add: round64_def)
  have le: "?ex \<le> ?ey"
  proof (rule ccontr)
    assume "\<not> ?ex \<le> ?ey"
    then have lt: "?ey + 1 \<le> ?ex" by simp
    then have "- 1022 < ?ex" using exponent64_ge [of y] by linarith
    then have "2 powi ?ex \<le> x" using exponent64_lower x by simp
    moreover have "y < 2 powi (?ey + 1)" using exponent64_upper y by simp
    moreover have "(2::real) powi (?ey + 1) \<le> 2 powi ?ex"
      using lt by (intro power_int_increasing) simp_all
    ultimately show False using assms(2) by linarith
  qed
  show ?thesis
  proof (cases "?ex = ?ey")
    case True
    have "x * 2 powi (52 - ?ey) \<le> y * 2 powi (52 - ?ey)"
      using assms(2) by (intro mult_right_mono) simp_all
    then have "roundEven (x * 2 powi (52 - ?ey)) \<le> roundEven (y * 2 powi (52 - ?ey))"
      by (rule roundEven_mono)
    then have "(of_int (roundEven (x * 2 powi (52 - ?ey))) :: real)
        \<le> of_int (roundEven (y * 2 powi (52 - ?ey)))"
      by (simp only: of_int_le_iff)
    then show ?thesis unfolding rx ry True by (intro mult_right_mono) simp_all
  next
    case False
    then have lt: "?ex + 1 \<le> ?ey" using le by linarith
    have "x * 2 powi (52 - ?ex) \<le> 2 powi (?ex + 1) * 2 powi (52 - ?ex)"
      using exponent64_upper [of x] x by (intro mult_right_mono) simp_all
    also have "\<dots> = 2 powi 53" by (rule powi_mult) simp
    also have "\<dots> = of_int (2 ^ 53)" by simp
    finally have "roundEven (x * 2 powi (52 - ?ex)) \<le> roundEven (of_int (2 ^ 53))"
      by (rule roundEven_mono)
    then have "(of_int (roundEven (x * 2 powi (52 - ?ex))) :: real) \<le> of_int (2 ^ 53)"
      by (simp only: roundEven_of_int of_int_le_iff)
    then have "round64 x \<le> of_int (2 ^ 53) * 2 powi (?ex - 52)"
      unfolding rx by (intro mult_right_mono) simp_all
    also have "of_int (2 ^ 53) = (2::real) powi 53" by simp
    also have "2 powi 53 * 2 powi (?ex - 52) = (2::real) powi (?ex + 1)"
      by (rule powi_mult) simp
    finally have a: "round64 x \<le> 2 powi (?ex + 1)" .
    have "- 1022 < ?ey" using lt exponent64_ge [of x] by linarith
    then have "2 powi ?ey \<le> y" using exponent64_lower y by simp
    then have "2 powi ?ey * 2 powi (52 - ?ey) \<le> y * 2 powi (52 - ?ey)"
      by (intro mult_right_mono) simp_all
    moreover have "2 powi ?ey * 2 powi (52 - ?ey) = (2::real) powi 52" by (rule powi_mult) simp
    moreover have "(2::real) powi 52 = of_int (2 ^ 52)" by simp
    ultimately have "of_int (2 ^ 52) \<le> y * 2 powi (52 - ?ey)" by simp
    then have "roundEven (of_int (2 ^ 52)) \<le> roundEven (y * 2 powi (52 - ?ey))"
      by (rule roundEven_mono)
    then have "(of_int (2 ^ 52) :: real) \<le> of_int (roundEven (y * 2 powi (52 - ?ey)))"
      by (simp only: roundEven_of_int of_int_le_iff)
    then have "of_int (2 ^ 52) * 2 powi (?ey - 52) \<le> round64 y"
      unfolding ry by (intro mult_right_mono) simp_all
    moreover have "of_int (2 ^ 52) * 2 powi (?ey - 52) = (2::real) powi 52 * 2 powi (?ey - 52)" by simp
    moreover have "(2::real) powi 52 * 2 powi (?ey - 52) = 2 powi ?ey" by (rule powi_mult) simp
    ultimately have b: "2 powi ?ey \<le> round64 y" by simp
    have "(2::real) powi (?ex + 1) \<le> 2 powi ?ey"
      using lt by (intro power_int_increasing) simp_all
    then show ?thesis using a b by linarith
  qed
qed

lemma round64_of_int:
  assumes "0 \<le> n" "n < 2 ^ 53"
  shows "round64 (of_int n) = of_int n"
proof (cases "n = 0")
  case True
  then show ?thesis by simp
next
  case False
  then have n: "0 < n" using assms by simp
  let ?e = "bitlen n - 1"
  have bb: "2 ^ nat ?e \<le> n" "n < 2 ^ nat (bitlen n)" using bitlen_bounds [OF n] by simp_all
  have e0: "0 \<le> ?e" using n bitlen_eq_zero_iff [of n] bitlen_nonneg [of n] by linarith
  have "(2::int) ^ nat ?e < 2 ^ 53" using bb(1) assms(2) by linarith
  then have "nat ?e < 53" by (rule power_less_imp_less_exp [rotated]) simp
  then have e52: "?e \<le> 52" by linarith
  have lo: "2 powi ?e \<le> (of_int n :: real)"
  proof -
    have "(of_int (2 ^ nat ?e) :: real) \<le> of_int n" using bb(1) by (simp only: of_int_le_iff)
    then show ?thesis using e0 by (simp add: power_int_def)
  qed
  have hi: "(of_int n :: real) < 2 powi (?e + 1)"
  proof -
    have "(of_int n :: real) < of_int (2 ^ nat (bitlen n))" using bb(2) by (simp only: of_int_less_iff)
    then show ?thesis using e0 by (simp add: power_int_def)
  qed
  have "round64 (of_int n) = of_int (roundEven (of_int n * 2 powi (52 - ?e))) * 2 powi (?e - 52)"
    using n e0 lo hi by (intro round64_binade) simp_all
  moreover have "(of_int n :: real) * 2 powi (52 - ?e) = of_int (n * 2 ^ nat (52 - ?e))"
    using e52 by (simp add: power_int_def)
  ultimately have "round64 (of_int n) = of_int (n * 2 ^ nat (52 - ?e)) * 2 powi (?e - 52)"
    by (simp only: roundEven_of_int)
  also have "\<dots> = of_int n * (2 powi (52 - ?e) * 2 powi (?e - 52))"
    using e52 by (simp add: power_int_def)
  also have "2 powi (52 - ?e) * 2 powi (?e - 52) = (1::real)"
    using powi_mult [of "52 - ?e" "?e - 52" 0] by simp
  finally show ?thesis by simp
qed

lemma round64_numeral:
  "(numeral w :: int) < 2 ^ 53 \<Longrightarrow> round64 (numeral w) = numeral w"
  using round64_of_int [of "numeral w"] by simp

section \<open>The pipe generator and the fields after a step\<close>

lemma generatePipe_fields:
  "pipe_x (generatePipe r) = 800" "\<not> passed (generatePipe r)"
  "topHeight (generatePipe r) = round64 (round64 (r * (350 - 50)) + 50)"
  "bottomY (generatePipe r) = round64 (topHeight (generatePipe r) + 200)"
  by (simp_all add: generatePipe_def constants Let_def add64_def sub64_def mul64_def
      round64_numeral)

lemma generatePipe_range:
  assumes "0 \<le> r" "r < 1"
  shows "50 \<le> topHeight (generatePipe r)" "topHeight (generatePipe r) \<le> 350"
    "bottomY (generatePipe r) \<le> 550"
proof -
  let ?t = "round64 (r * (350 - 50))"
  have t0: "0 \<le> ?t" using assms(1) by (intro round64_nonneg) simp
  have "?t \<le> round64 300" using assms by (intro round64_mono) simp_all
  then have t1: "?t \<le> 300" by (simp add: round64_numeral)
  have "round64 50 \<le> round64 (?t + 50)" using t0 by (intro round64_mono) simp_all
  then show lo: "50 \<le> topHeight (generatePipe r)"
    by (simp add: generatePipe_fields round64_numeral)
  have "round64 (?t + 50) \<le> round64 350" using t0 t1 by (intro round64_mono) simp_all
  then show hi: "topHeight (generatePipe r) \<le> 350"
    by (simp add: generatePipe_fields round64_numeral)
  have "round64 (topHeight (generatePipe r) + 200) \<le> round64 550"
    using lo hi by (intro round64_mono) simp_all
  then show "bottomY (generatePipe r) \<le> 550"
    by (simp add: generatePipe_fields(4) round64_numeral)
qed

lemma generatePipe_half:
  "generatePipe (1 / 2) = \<lparr>pipe_x = 800, topHeight = 200, bottomY = 400, passed = False\<rparr>"
  by (simp add: generatePipe_def constants Let_def add64_def sub64_def mul64_def round64_numeral)

lemma round64_nearOne: "round64 nearOne = nearOne"
  by (subst round64_binade [where e = "- 1"]) (simp_all add: nearOne_def roundEven_def Let_def)

lemma round64_edge:
  "round64 (nearOne * 300) = 300 - 1 / 2 ^ 44"
  "round64 (300 - 1 / 2 ^ 44 + 50) = 350 - 1 / 2 ^ 44"
  "round64 (350 - 1 / 2 ^ 44 + 200) = 550"
proof -
  show "round64 (nearOne * 300) = 300 - 1 / 2 ^ 44"
    by (subst round64_binade [where e = 8]) (simp_all add: nearOne_def roundEven_def Let_def)
  show "round64 (300 - 1 / 2 ^ 44 + 50) = 350 - 1 / 2 ^ 44"
    by (subst round64_binade [where e = 8]) (simp_all add: roundEven_def Let_def)
  show "round64 (350 - 1 / 2 ^ 44 + 200) = 550"
    by (subst round64_binade [where e = 9]) (simp_all add: roundEven_def Let_def)
qed

lemma round64_below_edge:
  "round64 ((1 - 3 / 2 ^ 53) * 300) = 300 - 2 / 2 ^ 44"
  "round64 (300 - 2 / 2 ^ 44 + 50) = 350 - 2 / 2 ^ 44"
  "round64 (350 - 2 / 2 ^ 44 + 200) = 550 - 2 / 2 ^ 44"
proof -
  show "round64 ((1 - 3 / 2 ^ 53) * 300) = 300 - 2 / 2 ^ 44"
    by (subst round64_binade [where e = 8]) (simp_all add: roundEven_def Let_def)
  show "round64 (300 - 2 / 2 ^ 44 + 50) = 350 - 2 / 2 ^ 44"
    by (subst round64_binade [where e = 8]) (simp_all add: roundEven_def Let_def)
  show "round64 (350 - 2 / 2 ^ 44 + 200) = 550 - 2 / 2 ^ 44"
    by (subst round64_binade [where e = 9]) (simp_all add: roundEven_def Let_def)
qed

lemma generatePipe_below_edge:
  assumes "0 \<le> r" "r \<le> 1 - 3 / 2 ^ 53"
  shows "bottomY (generatePipe r) < 550"
proof -
  let ?t = "round64 (r * (350 - 50))"
  have t0: "0 \<le> ?t" using assms(1) by (intro round64_nonneg) simp
  have "r * (350 - 50) \<le> (1 - 3 / 2 ^ 53) * 300" using assms(2) by simp
  then have "?t \<le> round64 ((1 - 3 / 2 ^ 53) * 300)" using assms(1) by (intro round64_mono) simp_all
  then have t1: "?t \<le> 300 - 2 / 2 ^ 44" by (simp only: round64_below_edge)
  have "round64 (?t + 50) \<le> round64 (300 - 2 / 2 ^ 44 + 50)"
    using t0 t1 by (intro round64_mono) simp_all
  then have top: "topHeight (generatePipe r) \<le> 350 - 2 / 2 ^ 44"
    by (simp only: generatePipe_fields(3) round64_below_edge)
  have r1: "r < 1" using assms(2) by simp
  have "0 \<le> topHeight (generatePipe r) + 200"
    using generatePipe_range(1) [OF assms(1) r1] by simp
  moreover have "topHeight (generatePipe r) + 200 \<le> 350 - 2 / 2 ^ 44 + 200" using top by simp
  ultimately have "round64 (topHeight (generatePipe r) + 200) \<le> round64 (350 - 2 / 2 ^ 44 + 200)"
    by (rule round64_mono)
  then have "bottomY (generatePipe r) \<le> 550 - 2 / 2 ^ 44"
    by (simp only: generatePipe_fields(4) round64_below_edge)
  then show ?thesis by simp
qed

lemma halfRandom_range: "0 \<le> halfRandom n \<and> halfRandom n < 1"
  by (simp add: halfRandom_def)

lemma playingStep_bird: "bird (playingStep rnd s) = updateBird (bird s)"
  by (simp add: playingStep_def Let_def split: prod.split)

lemma playingStep_score:
  "score (playingStep rnd s) =
     score s + int (length (filter (\<lambda>p. \<not> passed p \<and> pipe_x p - 3 + 80 < bird_x (bird s)) (pipes s)))"
  by (simp add: playingStep_def Let_def updateBird_def updatePipes_eq scoresMove split: prod.split)

lemma playingStep_pipes:
  "pipes (playingStep rnd s) =
     (let kept = filter (\<lambda>q. 0 \<le> pipe_x q + 80)
                   (map (\<lambda>p. p\<lparr>pipe_x := pipe_x p - 3,
                               passed := passed p \<or> pipe_x p - 3 + 80 < bird_x (bird s)\<rparr>) (pipes s))
      in if kept = [] \<or> pipe_x (last kept) < 500 then kept @ [generatePipe (rnd 0)] else kept)"
  by (simp add: playingStep_def Let_def updateBird_def updatePipes_eq markMove offScreen_iff
      not_less constants split: prod.split)

lemma playingStep_particles:
  "particles (playingStep rnd s) = particles s \<or>
   (\<exists>x y r. particles (playingStep rnd s) = addParticles x y 15 r (particles s))"
  by (auto simp: playingStep_def Let_def split: prod.split)

lemma playingStep_collision:
  "gameState (playingStep rnd s) =
     (if checkCollision (bird (playingStep rnd s)) (pipes (playingStep rnd s))
      then GameOver else gameState s)"
  "highScore (playingStep rnd s) =
     (if checkCollision (bird (playingStep rnd s)) (pipes (playingStep rnd s)) \<and>
         gtNum (score s) (highScore s)
      then Num (score s) else highScore s)"
  "storage (playingStep rnd s) =
     (if checkCollision (bird (playingStep rnd s)) (pipes (playingStep rnd s)) \<and>
         gtNum (score s) (highScore s)
      then Some (toString (score s)) else storage s)"
  unfolding playingStep_def Let_def by (simp_all split: prod.split)

lemma particleStep_fields:
  "bird (particleStep s) = bird s" "pipes (particleStep s) = pipes s"
  "score (particleStep s) = score s" "gameState (particleStep s) = gameState s"
  "highScore (particleStep s) = highScore s" "storage (particleStep s) = storage s"
  by (simp_all add: particleStep_def)

lemma particleStep_particles:
  "particles (particleStep s) = filter (\<lambda>q. 0 < life q) (map moveParticle (particles s))"
  by (simp add: particleStep_def updateParticles_eq not_le)

lemma highScore_tick:
  "highScore (gameLoop surface rnd s) =
     (if surface \<and> gameState s = Playing \<and>
         checkCollision (bird (playingStep rnd s)) (pipes (playingStep rnd s)) \<and>
         gtNum (score s) (highScore s)
      then Num (score s) else highScore s)"
  by (simp add: gameLoop_def particleStep_fields playingStep_collision)

lemma highScore_never_decreases:
  "highScore s = Num h \<Longrightarrow> \<exists>h'. highScore (gameLoop surface rnd s) = Num h' \<and> h \<le> h'"
  by (simp add: highScore_tick gtNum_def)

section \<open>Properties of the collision test\<close>





section \<open>Scoring and removal of pipes\<close>

lemma funpow_passed:
  "passed p \<Longrightarrow> passed (((\<lambda>p. markPipe bx (movePipe p)) ^^ k) p)"
  by (induction k) (simp_all add: markMove)

lemma scored_once:
  assumes "j < k" "scores bx (movePipe (((\<lambda>p. markPipe bx (movePipe p)) ^^ j) p))"
  shows "\<not> scores bx (movePipe (((\<lambda>p. markPipe bx (movePipe p)) ^^ k) p))"
proof -
  let ?f = "\<lambda>p. markPipe bx (movePipe p)"
  obtain d where k: "k = d + Suc j"
    using assms(1) less_iff_Suc_add by (metis add.commute add_Suc_right)
  have "passed ((?f ^^ Suc j) p)" using assms(2) by (simp add: markMove scoresMove)
  then have "passed ((?f ^^ d) ((?f ^^ Suc j) p))" by (rule funpow_passed)
  then have "passed ((?f ^^ k) p)" unfolding k funpow_add by simp
  then show ?thesis by (simp add: scoresMove)
qed

text \<open>
  Claim C2. On a tick in state \<open>Playing\<close> the score grows by the number of pipes of the
  sequence, as it was before the tick, whose flag is unset and whose trailing edge after
  this tick's advance (\<open>x - 3 + 80\<close>) is strictly left of the bird's \<open>x\<close>; the count runs
  over the whole sequence, so a pipe that this tick removes is counted before it goes.
  The pipes after the tick are the advanced pipes, each with its flag set if it was set or
  the pipe was counted, without those whose trailing edge is left of \<open>0\<close>, and with a new
  pipe appended when the spawn test holds. The bird's \<open>x\<close> does not move. A pipe that is
  followed through any number of ticks is counted on at most one of them.
\<close>

theorem scoring_tick:
  "gameState s = Playing \<longrightarrow>
     score (gameLoop True rnd s) =
       score s + int (length (filter (\<lambda>p. \<not> passed p \<and> pipe_x p - 3 + 80 < bird_x (bird s)) (pipes s))) \<and>
     pipes (gameLoop True rnd s) =
       (let kept = filter (\<lambda>q. 0 \<le> pipe_x q + 80)
                     (map (\<lambda>p. p\<lparr>pipe_x := pipe_x p - 3,
                                 passed := passed p \<or> pipe_x p - 3 + 80 < bird_x (bird s)\<rparr>) (pipes s))
        in if kept = [] \<or> pipe_x (last kept) < 500 then kept @ [generatePipe (rnd 0)] else kept) \<and>
     bird_x (bird (gameLoop True rnd s)) = bird_x (bird s) \<and>
     (\<forall>p bx j k. j < k \<and> scores bx (movePipe (((\<lambda>p. markPipe bx (movePipe p)) ^^ j) p))
        \<longrightarrow> \<not> scores bx (movePipe (((\<lambda>p. markPipe bx (movePipe p)) ^^ k) p)))"
proof (intro impI conjI allI)
  assume pl: "gameState s = Playing"
  show "score (gameLoop True rnd s) =
       score s + int (length (filter (\<lambda>p. \<not> passed p \<and> pipe_x p - 3 + 80 < bird_x (bird s)) (pipes s)))"
    using pl by (simp add: gameLoop_def particleStep_fields playingStep_score)
  show "pipes (gameLoop True rnd s) =
       (let kept = filter (\<lambda>q. 0 \<le> pipe_x q + 80)
                     (map (\<lambda>p. p\<lparr>pipe_x := pipe_x p - 3,
                                 passed := passed p \<or> pipe_x p - 3 + 80 < bird_x (bird s)\<rparr>) (pipes s))
        in if kept = [] \<or> pipe_x (last kept) < 500 then kept @ [generatePipe (rnd 0)] else kept)"
    using pl by (simp add: gameLoop_def particleStep_fields playingStep_pipes)
  show "bird_x (bird (gameLoop True rnd s)) = bird_x (bird s)"
    using pl by (simp add: gameLoop_def particleStep_fields playingStep_bird updateBird_def Let_def)
next
  fix p bx j k
  assume "j < k \<and> scores bx (movePipe (((\<lambda>p. markPipe bx (movePipe p)) ^^ j) p))"
  then show "\<not> scores bx (movePipe (((\<lambda>p. markPipe bx (movePipe p)) ^^ k) p))"
    using scored_once by blast
qed

theorem scoring_tick_witness:
  "gameState scoringGame = Playing \<and> score scoringGame = 3 \<and>
   map pipe_x (pipes scoringGame) = [- 78, 71, 374] \<and>
   score (gameLoop True halfRandom scoringGame) = 5 \<and>
   map pipe_x (pipes (gameLoop True halfRandom scoringGame)) = [68, 371, 800] \<and>
   map passed (pipes (gameLoop True halfRandom scoringGame)) = [True, False, False]"
proof -
  have pl: "gameState scoringGame = Playing" by (simp add: scoringGame_def)
  show ?thesis
    using scoring_tick [of scoringGame halfRandom] pl
    by (simp add: scoringGame_def generatePipe_fields)
qed

text \<open>
  Claim C3, as stated, fails: a pipe that the tick brings to \<open>x = - 1\<close> has its trailing
  edge at \<open>79\<close> and stays in the sequence.
\<close>

theorem pipe_at_minus_one_kept:
  "gameState exitingGame = Playing \<and>
   map pipe_x (pipes exitingGame) = [- 78, 2, 305, 608] \<and>
   map pipe_x (pipes (gameLoop True halfRandom exitingGame)) = [- 1, 302, 605]"
  by (simp add: exitingGame_def gameLoop_def particleStep_fields playingStep_pipes)

text \<open>
  Claim C3, amended. After a tick in state \<open>Playing\<close> no pipe of the sequence has its
  trailing edge strictly left of \<open>0\<close>, and every pipe whose trailing edge after the
  advance is at \<open>0\<close> or to its right is still in the sequence, advanced: a pipe is removed
  on the tick its trailing edge \<open>x + 80\<close> becomes strictly less than \<open>0\<close> and not before.
  In particular a pipe brought to \<open>x = - 1\<close> is still there.
\<close>

theorem offscreen_removal:
  "gameState s = Playing \<longrightarrow>
     (\<forall>q \<in> set (pipes (gameLoop True rnd s)). 0 \<le> pipe_x q + 80) \<and>
     (\<forall>p \<in> set (pipes s). 0 \<le> pipe_x p - 3 + 80 \<longrightarrow>
        p\<lparr>pipe_x := pipe_x p - 3, passed := passed p \<or> pipe_x p - 3 + 80 < bird_x (bird s)\<rparr>
          \<in> set (pipes (gameLoop True rnd s))) \<and>
     (\<forall>p \<in> set (pipes s). pipe_x p - 3 = - 1 \<longrightarrow>
        (\<exists>q \<in> set (pipes (gameLoop True rnd s)).
           pipe_x q = - 1 \<and> topHeight q = topHeight p \<and> bottomY q = bottomY p))"
proof (intro impI conjI ballI)
  assume pl: "gameState s = Playing"
  let ?f = "\<lambda>p. p\<lparr>pipe_x := pipe_x p - 3, passed := passed p \<or> pipe_x p - 3 + 80 < bird_x (bird s)\<rparr>"
  let ?kept = "filter (\<lambda>q. 0 \<le> pipe_x q + 80) (map ?f (pipes s))"
  have eq: "pipes (gameLoop True rnd s) =
      (if ?kept = [] \<or> pipe_x (last ?kept) < 500 then ?kept @ [generatePipe (rnd 0)] else ?kept)"
    using pl by (simp add: gameLoop_def particleStep_fields playingStep_pipes Let_def)
  { fix q assume "q \<in> set (pipes (gameLoop True rnd s))"
    then show "0 \<le> pipe_x q + 80"
      unfolding eq by (auto simp: generatePipe_fields split: if_splits) }
  { fix p assume p: "p \<in> set (pipes s)" and "0 \<le> pipe_x p - 3 + 80"
    then have "?f p \<in> set ?kept" by simp
    then show "?f p \<in> set (pipes (gameLoop True rnd s))"
      unfolding eq by simp }
  note kept = this
  { fix p assume p: "p \<in> set (pipes s)" and x: "pipe_x p - 3 = - 1"
    have "?f p \<in> set (pipes (gameLoop True rnd s))" using kept [OF p] x by simp
    moreover have "pipe_x (?f p) = - 1 \<and> topHeight (?f p) = topHeight p \<and> bottomY (?f p) = bottomY p"
      using x by simp
    ultimately show "\<exists>q \<in> set (pipes (gameLoop True rnd s)).
           pipe_x q = - 1 \<and> topHeight q = topHeight p \<and> bottomY q = bottomY p"
      by blast }
qed

theorem offscreen_removal_witness:
  "gameState exitingGame = Playing \<and>
   map pipe_x (pipes exitingGame) = [- 78, 2, 305, 608] \<and>
   list_all (\<lambda>q. 0 \<le> pipe_x q + 80) (pipes (gameLoop True halfRandom exitingGame)) \<and>
   \<lparr>pipe_x = - 1, topHeight = 200, bottomY = 400, passed = True\<rparr>
      \<in> set (pipes (gameLoop True halfRandom exitingGame)) \<and>
   length (pipes (gameLoop True halfRandom exitingGame)) = 3"
proof -
  have pl: "gameState exitingGame = Playing" by (simp add: exitingGame_def)
  have th: "(\<forall>q \<in> set (pipes (gameLoop True halfRandom exitingGame)). 0 \<le> pipe_x q + 80) \<and>
     (\<forall>p \<in> set (pipes exitingGame). 0 \<le> pipe_x p - 3 + 80 \<longrightarrow>
        p\<lparr>pipe_x := pipe_x p - 3, passed := passed p \<or> pipe_x p - 3 + 80 < bird_x (bird exitingGame)\<rparr>
          \<in> set (pipes (gameLoop True halfRandom exitingGame)))"
    using offscreen_removal [of exitingGame halfRandom] pl by blast
  have a: "list_all (\<lambda>q. 0 \<le> pipe_x q + 80) (pipes (gameLoop True halfRandom exitingGame))"
    using th by (simp add: list_all_iff)
  have b: "\<lparr>pipe_x = - 1, topHeight = 200, bottomY = 400, passed = True\<rparr>
      \<in> set (pipes (gameLoop True halfRandom exitingGame))"
    using th by (simp add: exitingGame_def)
  have c: "length (pipes (gameLoop True halfRandom exitingGame)) = 3"
    by (simp add: exitingGame_def gameLoop_def particleStep_fields playingStep_pipes)
  show ?thesis using pl a b c by (simp add: exitingGame_def)
qed

section \<open>The activate event\<close>

text \<open>
  Claim C4. An activate event in state \<open>Menu\<close> or \<open>GameOver\<close> leads to \<open>Playing\<close>, with
  the bird at \<open>x = 150\<close>, \<open>y = CANVAS_HEIGHT / 2 = 300\<close>, velocity and rotation \<open>0\<close>, no
  pipes, no particles and score \<open>0\<close>. No activate event leads from \<open>Menu\<close> to \<open>GameOver\<close>
  or from \<open>GameOver\<close> to \<open>Menu\<close>.
\<close>

theorem activate_resets:
  "(gameState s = Menu \<or> gameState s = GameOver \<longrightarrow>
      gameState (jump rnd s) = Playing \<and>
      bird (jump rnd s) = \<lparr>bird_x = 150, bird_y = 300, velocity = 0, rotation = 0\<rparr> \<and>
      bird_y (bird (jump rnd s)) = CANVAS_HEIGHT / 2 \<and>
      pipes (jump rnd s) = [] \<and> particles (jump rnd s) = [] \<and> score (jump rnd s) = 0) \<and>
   \<not> (gameState s = Menu \<and> gameState (jump rnd s) = GameOver) \<and>
   \<not> (gameState s = GameOver \<and> gameState (jump rnd s) = Menu)"
  by (cases "gameState s") (simp_all add: jump_def resetGame_def constants)

theorem activate_resets_witness:
  "gameState (initialGame None) = Menu \<and> gameState gameOverGame = GameOver \<and>
   gameState (jump halfRandom (initialGame None)) = Playing \<and>
   gameState (jump halfRandom gameOverGame) = Playing \<and>
   bird (jump halfRandom gameOverGame) = \<lparr>bird_x = 150, bird_y = 300, velocity = 0, rotation = 0\<rparr> \<and>
   pipes (jump halfRandom gameOverGame) = [] \<and> particles (jump halfRandom gameOverGame) = [] \<and>
   score (jump halfRandom gameOverGame) = 0"
proof -
  have m: "gameState (initialGame None) = Menu" by (simp add: initialGame_def)
  have g: "gameState gameOverGame = GameOver" by (simp add: gameOverGame_def)
  show ?thesis
    using activate_resets [of "initialGame None" halfRandom]
      activate_resets [of gameOverGame halfRandom] m g
    by simp
qed

text \<open>
  Claim C5. An activate event in state \<open>Playing\<close> sets the bird's velocity to \<open>- 12\<close>
  whatever it was, leaves the state \<open>Playing\<close>, and appends exactly five particles, all
  at \<open>(bird.x - 15, bird.y + 15)\<close> with \<open>life = maxLife = 30\<close>; the bird's position, the
  pipes, the score and the best score stay as they were.
\<close>

theorem impulse_overwrites:
  "gameState s = Playing \<longrightarrow>
     velocity (bird (jump rnd s)) = - 12 \<and>
     gameState (jump rnd s) = Playing \<and>
     particles (jump rnd s) =
       particles s @
       map (\<lambda>i. \<lparr>part_x = bird_x (bird s) - 15, part_y = bird_y (bird s) + 15,
                 vel_x = (rnd (2 * i) - 1 / 2) * 8, vel_y = (rnd (2 * i + 1) - 1 / 2) * 8 - 2,
                 life = 30, maxLife = 30\<rparr>) [0..<5] \<and>
     length (particles (jump rnd s)) = length (particles s) + 5 \<and>
     bird_x (bird (jump rnd s)) = bird_x (bird s) \<and>
     bird_y (bird (jump rnd s)) = bird_y (bird s) \<and>
     pipes (jump rnd s) = pipes s \<and> score (jump rnd s) = score s \<and>
     highScore (jump rnd s) = highScore s"
  by (simp add: jump_def addParticles_eq constants del: upt_Suc)

theorem impulse_overwrites_witness:
  "gameState (scoringGame\<lparr>bird := (bird scoringGame)\<lparr>velocity := 7\<rparr>\<rparr>) = Playing \<and>
   velocity (bird (scoringGame\<lparr>bird := (bird scoringGame)\<lparr>velocity := 7\<rparr>\<rparr>)) = 7 \<and>
   velocity (bird (jump halfRandom (scoringGame\<lparr>bird := (bird scoringGame)\<lparr>velocity := 7\<rparr>\<rparr>))) = - 12 \<and>
   gameState (jump halfRandom (scoringGame\<lparr>bird := (bird scoringGame)\<lparr>velocity := 7\<rparr>\<rparr>)) = Playing \<and>
   map part_x (particles (jump halfRandom (scoringGame\<lparr>bird := (bird scoringGame)\<lparr>velocity := 7\<rparr>\<rparr>)))
     = [135, 135, 135, 135, 135] \<and>
   map part_y (particles (jump halfRandom (scoringGame\<lparr>bird := (bird scoringGame)\<lparr>velocity := 7\<rparr>\<rparr>)))
     = [315, 315, 315, 315, 315]"
proof -
  let ?s = "scoringGame\<lparr>bird := (bird scoringGame)\<lparr>velocity := 7\<rparr>\<rparr>"
  have pl: "gameState ?s = Playing" by (simp add: scoringGame_def)
  show ?thesis
    using impulse_overwrites [of ?s halfRandom] pl upt_5
    by (simp add: scoringGame_def)
qed

section \<open>The best score on a collision tick\<close>

text \<open>
  Claim C6. The claim holds where the code falls short. \<open>staleScoreGame\<close> is a first run
  with score \<open>0\<close> and best score \<open>0\<close>. On the next tick the first pipe's trailing edge
  passes the bird, so the score becomes \<open>1\<close>, and the bird leaves the gap, so the game is
  over. The comparison \<open>score > highScore\<close> of that tick still reads the score \<open>0\<close> of the
  handler's closure: the best score stays \<open>0\<close> and nothing is written to the store, while
  the claim has the best score become \<open>1\<close>.
\<close>

theorem stale_score_on_collision_tick:
  "gameState staleScoreGame = Playing \<and> score staleScoreGame = 0 \<and>
   highScore staleScoreGame = Num 0 \<and>
   gameState (gameLoop True halfRandom staleScoreGame) = GameOver \<and>
   score (gameLoop True halfRandom staleScoreGame) = 1 \<and>
   highScore (gameLoop True halfRandom staleScoreGame) = Num 0 \<and>
   storage (gameLoop True halfRandom staleScoreGame) = None"
proof -
  let ?t = "playingStep halfRandom staleScoreGame"
  have s0: "gameState staleScoreGame = Playing" "score staleScoreGame = 0"
    "highScore staleScoreGame = Num 0" "storage staleScoreGame = None"
    by (simp_all add: staleScoreGame_def)
  have b: "bird ?t = \<lparr>bird_x = 150, bird_y = 286.2, velocity = 10.2, rotation = 30.6\<rparr>"
    by (simp add: playingStep_bird updateBird_def staleScoreGame_def constants Let_def)
  have p: "pipes ?t =
      [\<lparr>pipe_x = 68, topHeight = 100, bottomY = 300, passed = True\<rparr>,
       \<lparr>pipe_x = 371, topHeight = 200, bottomY = 400, passed = False\<rparr>,
       \<lparr>pipe_x = 674, topHeight = 150, bottomY = 350, passed = False\<rparr>]"
    by (simp add: playingStep_pipes staleScoreGame_def)
  have sc: "score ?t = 1"
    by (simp add: playingStep_score staleScoreGame_def)
  have c: "checkCollision (bird ?t) (pipes ?t)"
    unfolding b p by (simp add: checkCollision_def constants)
  have g: "\<not> gtNum (score staleScoreGame) (highScore staleScoreGame)"
    by (simp add: s0 gtNum_def)
  show ?thesis
    using s0 sc c g by (simp add: gameLoop_def particleStep_fields playingStep_collision)
qed

section \<open>Invariants of the reachable states\<close>

lemma reachable_pipes:
  "reachable s \<Longrightarrow>
   \<forall>p \<in> set (pipes s). 50 \<le> topHeight p \<and> topHeight p \<le> 350 \<and> bottomY p \<le> 550 \<and>
      bottomY p = round64 (topHeight p + 200)"
proof (induction rule: reachable.induct)
  case (mount store)
  show ?case by (simp add: initialGame_def)
next
  case (activate s rnd)
  then show ?case by (auto simp: jump_def resetGame_def)
next
  case (tick s rnd surface)
  have r: "0 \<le> rnd 0" "rnd 0 < 1" using tick.hyps(2) [of 0] by simp_all
  have new: "50 \<le> topHeight (generatePipe (rnd 0)) \<and> topHeight (generatePipe (rnd 0)) \<le> 350 \<and>
      bottomY (generatePipe (rnd 0)) \<le> 550 \<and>
      bottomY (generatePipe (rnd 0)) = round64 (topHeight (generatePipe (rnd 0)) + 200)"
    using generatePipe_range [OF r] generatePipe_fields(4) [of "rnd 0"] by simp
  show ?case
  proof (cases "surface \<and> gameState s = Playing")
    case False
    then show ?thesis using tick.IH by (auto simp: gameLoop_def particleStep_fields)
  next
    case True
    then have "pipes (gameLoop surface rnd s) = pipes (playingStep rnd s)"
      by (simp add: gameLoop_def particleStep_fields)
    then show ?thesis
      using tick.IH new
      by (auto simp: playingStep_pipes Let_def split: if_splits)
  qed
qed

lemma Ints_pos_ge_1: "(x::real) \<in> \<int> \<Longrightarrow> 0 < x \<Longrightarrow> 1 \<le> x"
  by (auto elim!: Ints_cases)

lemma moved_particle:
  assumes "maxLife q = 30 \<and> life q \<in> \<int> \<and> 1 \<le> life q \<and> life q \<le> 30"
    and "0 < life (moveParticle q)"
  shows "maxLife (moveParticle q) = 30 \<and> life (moveParticle q) \<in> \<int> \<and>
     1 \<le> life (moveParticle q) \<and> life (moveParticle q) \<le> 30"
proof -
  have i: "life (moveParticle q) \<in> \<int>" using assms(1) by (simp add: moveParticle_def)
  then have "1 \<le> life (moveParticle q)" using assms(2) by (rule Ints_pos_ge_1)
  then show ?thesis using assms(1) i by (simp add: moveParticle_def)
qed

lemma particleStep_inv:
  assumes "\<forall>q \<in> set (particles s). maxLife q = 30 \<and> life q \<in> \<int> \<and> 1 \<le> life q \<and> life q \<le> 30"
  shows "\<forall>q \<in> set (particles (particleStep s)).
     maxLife q = 30 \<and> life q \<in> \<int> \<and> 1 \<le> life q \<and> life q \<le> 30"
proof
  fix q assume "q \<in> set (particles (particleStep s))"
  then obtain p where p: "p \<in> set (particles s)" "q = moveParticle p" "0 < life (moveParticle p)"
    by (auto simp: particleStep_particles)
  then show "maxLife q = 30 \<and> life q \<in> \<int> \<and> 1 \<le> life q \<and> life q \<le> 30"
    using assms moved_particle by blast
qed

lemma addParticles_inv:
  assumes "\<forall>q \<in> set ps. maxLife q = 30 \<and> life q \<in> \<int> \<and> 1 \<le> life q \<and> life q \<le> 30"
  shows "\<forall>q \<in> set (addParticles x y n rnd ps).
     maxLife q = 30 \<and> life q \<in> \<int> \<and> 1 \<le> life q \<and> life q \<le> 30"
  using assms by (auto simp: addParticles_eq)

lemma playingStep_inv:
  assumes "\<forall>q \<in> set (particles s). maxLife q = 30 \<and> life q \<in> \<int> \<and> 1 \<le> life q \<and> life q \<le> 30"
  shows "\<forall>q \<in> set (particles (playingStep rnd s)).
     maxLife q = 30 \<and> life q \<in> \<int> \<and> 1 \<le> life q \<and> life q \<le> 30"
  using playingStep_particles [of rnd s] addParticles_inv [OF assms] assms by metis

lemma reachable_particles:
  "reachable s \<Longrightarrow>
   \<forall>q \<in> set (particles s). maxLife q = 30 \<and> life q \<in> \<int> \<and> 1 \<le> life q \<and> life q \<le> 30"
proof (induction rule: reachable.induct)
  case (mount store)
  show ?case by (simp add: initialGame_def)
next
  case (activate s rnd)
  show ?case
  proof (cases "gameState s = Playing")
    case True
    then have "particles (jump rnd s) =
        addParticles (bird_x (bird s) - BIRD_SIZE / 2) (bird_y (bird s) + BIRD_SIZE / 2) 5 rnd (particles s)"
      by (simp add: jump_def)
    then show ?thesis using addParticles_inv [OF activate.IH] by simp
  next
    case False
    then show ?thesis using activate.IH by (auto simp: jump_def resetGame_def)
  qed
next
  case (tick s rnd surface)
  show ?case
  proof (cases surface)
    case False
    then show ?thesis using tick.IH by (simp add: gameLoop_def)
  next
    case True
    show ?thesis
    proof (cases "gameState s = Playing")
      case False
      then have "gameLoop surface rnd s = particleStep s" using True by (simp add: gameLoop_def)
      then show ?thesis using particleStep_inv [OF tick.IH] by simp
    next
      case pl: True
      then have "gameLoop surface rnd s = particleStep (playingStep rnd s)"
        using True by (simp add: gameLoop_def)
      then show ?thesis using particleStep_inv [OF playingStep_inv [OF tick.IH]] by simp
    qed
  qed
qed

section \<open>The pipe generator\<close>

text \<open>
  Claim C7, as stated, fails. \<open>nearOne\<close>, the greatest double below \<open>1\<close>, is a result
  the random source can give. With it \<open>r * 300\<close> rounds to \<open>300 - 2^-44\<close>, the top of the
  gap is \<open>350 - 2^-44\<close>, and the sum with \<open>200\<close> lies halfway between two doubles and
  rounds to the even one, \<open>550\<close>: the bottom of the gap is on the ground line, not above
  it, and it is not the exact sum of the top and \<open>200\<close>.
\<close>

theorem generatePipe_reaches_ground_line:
  "0 \<le> nearOne \<and> nearOne < 1 \<and> round64 nearOne = nearOne \<and>
   topHeight (generatePipe nearOne) = 350 - 1 / 2 ^ 44 \<and>
   bottomY (generatePipe nearOne) = 550 \<and>
   \<not> bottomY (generatePipe nearOne) < 600 - 50 \<and>
   bottomY (generatePipe nearOne) \<noteq> topHeight (generatePipe nearOne) + 200"
proof -
  have r: "0 \<le> nearOne" "nearOne < 1" by (simp_all add: nearOne_def)
  have "topHeight (generatePipe nearOne) = round64 (round64 (nearOne * 300) + 50)"
    by (simp add: generatePipe_fields)
  also have "\<dots> = round64 (300 - 1 / 2 ^ 44 + 50)" by (simp only: round64_edge)
  also have "\<dots> = 350 - 1 / 2 ^ 44" by (rule round64_edge)
  finally have t: "topHeight (generatePipe nearOne) = 350 - 1 / 2 ^ 44" .
  have b: "bottomY (generatePipe nearOne) = 550"
    by (simp only: generatePipe_fields(4) t round64_edge)
  show ?thesis using r round64_nearOne t b by simp
qed

text \<open>
  Claim C7, amended. For a result \<open>r\<close> of the random source in \<open>[0, 1)\<close> the generated
  pipe has \<open>x = 800\<close> and an unset flag; the top of its gap is \<open>r * (350 - 50) + 50\<close> and
  the bottom is the top plus \<open>200\<close>, both as the doubles the operations give; the top
  lies in \<open>[50, 350]\<close>, where \<open>350 = 600 - 200 - 50\<close>, so \<open>0 < topHeight\<close>, and the bottom
  is at most \<open>600 - 50 = 550\<close>. The bottom is strictly below \<open>550\<close> for every \<open>r\<close> up to
  \<open>1 - 3 * 2^-53\<close>, that is for all but the last two doubles below \<open>1\<close>. Every pipe of
  every reachable state has \<open>0 < topHeight\<close>, \<open>bottomY \<le> 550\<close> and \<open>bottomY\<close> the double
  sum of \<open>topHeight\<close> and \<open>200\<close>. How the top is distributed is not part of the model.
\<close>

theorem generatePipe_bounds:
  "(0 \<le> r \<and> r < 1 \<longrightarrow>
      pipe_x (generatePipe r) = 800 \<and> \<not> passed (generatePipe r) \<and>
      topHeight (generatePipe r) = round64 (round64 (r * (350 - 50)) + 50) \<and>
      bottomY (generatePipe r) = round64 (topHeight (generatePipe r) + 200) \<and>
      50 \<le> topHeight (generatePipe r) \<and> topHeight (generatePipe r) \<le> 600 - 200 - 50 \<and>
      0 < topHeight (generatePipe r) \<and> bottomY (generatePipe r) \<le> 600 - 50) \<and>
   (0 \<le> r \<and> r \<le> 1 - 3 / 2 ^ 53 \<longrightarrow> bottomY (generatePipe r) < 600 - 50) \<and>
   (reachable s \<longrightarrow>
      (\<forall>p \<in> set (pipes s). 0 < topHeight p \<and> bottomY p \<le> 600 - 50 \<and>
         bottomY p = round64 (topHeight p + 200)))"
proof (intro conjI impI)
  assume "reachable s"
  from reachable_pipes [OF this]
  show "\<forall>p \<in> set (pipes s). 0 < topHeight p \<and> bottomY p \<le> 600 - 50 \<and>
         bottomY p = round64 (topHeight p + 200)"
    by auto
next
  assume "0 \<le> r \<and> r \<le> 1 - 3 / 2 ^ 53"
  then show "bottomY (generatePipe r) < 600 - 50"
    using generatePipe_below_edge [of r] by simp
next
  assume r: "0 \<le> r \<and> r < 1"
  show "pipe_x (generatePipe r) = 800" by (simp add: generatePipe_fields)
  show "\<not> passed (generatePipe r)" by (simp add: generatePipe_fields)
  show "topHeight (generatePipe r) = round64 (round64 (r * (350 - 50)) + 50)"
    by (rule generatePipe_fields)
  show "bottomY (generatePipe r) = round64 (topHeight (generatePipe r) + 200)"
    by (rule generatePipe_fields)
  show "50 \<le> topHeight (generatePipe r)" using r generatePipe_range(1) [of r] by simp
  show "topHeight (generatePipe r) \<le> 600 - 200 - 50"
    using generatePipe_range(2) [of r] r by simp
  show "0 < topHeight (generatePipe r)" using generatePipe_range(1) [of r] r by simp
  show "bottomY (generatePipe r) \<le> 600 - 50"
    using generatePipe_range(3) [of r] r by simp
qed

theorem generatePipe_bounds_witness:
  "0 \<le> (1 / 2 :: real) \<and> (1 / 2 :: real) < 1 \<and> (1 / 2 :: real) \<le> 1 - 3 / 2 ^ 53 \<and>
   generatePipe (1 / 2) = \<lparr>pipe_x = 800, topHeight = 200, bottomY = 400, passed = False\<rparr> \<and>
   bottomY (generatePipe (1 / 2)) < 550 \<and>
   0 \<le> nearOne \<and> nearOne < 1 \<and>
   50 \<le> topHeight (generatePipe nearOne) \<and> bottomY (generatePipe nearOne) \<le> 550 \<and>
   reachable (gameLoop True halfRandom (jump halfRandom (initialGame None))) \<and>
   pipes (gameLoop True halfRandom (jump halfRandom (initialGame None))) =
     [\<lparr>pipe_x = 800, topHeight = 200, bottomY = 400, passed = False\<rparr>] \<and>
   list_all (\<lambda>p. 0 < topHeight p \<and> bottomY p \<le> 550)
     (pipes (gameLoop True halfRandom (jump halfRandom (initialGame None))))"
proof -
  let ?s = "gameLoop True halfRandom (jump halfRandom (initialGame None))"
  have r: "reachable ?s"
    by (intro reachable.tick reachable.activate reachable.mount halfRandom_range)
  have h: "0 \<le> (1 / 2 :: real) \<and> (1 / 2 :: real) \<le> 1 - 3 / 2 ^ 53" by simp
  have "bottomY (generatePipe (1 / 2)) < 600 - 50"
    using generatePipe_bounds [of "1 / 2" ?s] h by blast
  then have lt: "bottomY (generatePipe (1 / 2)) < 550" by simp
  have n: "0 \<le> nearOne \<and> nearOne < 1" by (simp add: nearOne_def)
  have "50 \<le> topHeight (generatePipe nearOne) \<and> bottomY (generatePipe nearOne) \<le> 600 - 50"
    using generatePipe_bounds [of nearOne ?s] n by blast
  then have e: "50 \<le> topHeight (generatePipe nearOne) \<and> bottomY (generatePipe nearOne) \<le> 550"
    by simp
  have p: "pipes ?s = [generatePipe (1 / 2)]"
    by (simp add: gameLoop_def particleStep_fields playingStep_pipes jump_def resetGame_def
        initialGame_def halfRandom_def)
  have "\<forall>p \<in> set (pipes ?s). 0 < topHeight p \<and> bottomY p \<le> 600 - 50 \<and>
      bottomY p = round64 (topHeight p + 200)"
    using generatePipe_bounds [of "1 / 2" ?s] r by blast
  then have l: "list_all (\<lambda>p. 0 < topHeight p \<and> bottomY p \<le> 550) (pipes ?s)"
    unfolding list_all_iff by auto
  show ?thesis using r h lt n e p l by (simp add: generatePipe_half)
qed

section \<open>Ticks outside the playing state\<close>

text \<open>
  Claim C8, as stated, fails: on a tick in state \<open>GameOver\<close> the particle loop still
  runs. Of the two particles of \<open>gameOverGame\<close> one is moved and aged, the other
  reaches \<open>life = 0\<close> and is dropped.
\<close>

theorem particles_advance_when_not_playing:
  "gameState gameOverGame = GameOver \<and>
   particles (gameLoop True halfRandom gameOverGame) \<noteq> particles gameOverGame \<and>
   particles (gameLoop True halfRandom gameOverGame) =
     [\<lparr>part_x = 152, part_y = 533, vel_x = 2, vel_y = - 27 / 10, life = 29, maxLife = 30\<rparr>]"
  by (simp add: gameOverGame_def gameLoop_def particleStep_def moveParticle_def spliceAt_def Let_def)

text \<open>
  Claim C8, amended. The bird, pipe, score and collision part of the step runs only in
  state \<open>Playing\<close>; the particle advance (position plus velocity, vertical velocity plus
  \<open>0.3\<close>, life minus one, particles with \<open>life \<le> 0\<close> dropped) runs on every tick, in
  every state. On a tick in state \<open>Menu\<close> or \<open>GameOver\<close> the bird, the pipes, the score,
  the best score, the store and the state are unchanged and the particles are advanced;
  in state \<open>Playing\<close> the tick is the playing step followed by the same particle advance.
\<close>

theorem tick_by_state:
  "(gameState s \<noteq> Playing \<longrightarrow>
      bird (gameLoop True rnd s) = bird s \<and> pipes (gameLoop True rnd s) = pipes s \<and>
      score (gameLoop True rnd s) = score s \<and> gameState (gameLoop True rnd s) = gameState s \<and>
      highScore (gameLoop True rnd s) = highScore s \<and> storage (gameLoop True rnd s) = storage s \<and>
      particles (gameLoop True rnd s) =
        filter (\<lambda>q. 0 < life q)
          (map (\<lambda>p. p\<lparr>part_x := part_x p + vel_x p, part_y := part_y p + vel_y p,
                      vel_y := vel_y p + 3 / 10, life := life p - 1\<rparr>) (particles s))) \<and>
   (gameState s = Playing \<longrightarrow>
      gameLoop True rnd s = particleStep (playingStep rnd s) \<and>
      particles (gameLoop True rnd s) =
        filter (\<lambda>q. 0 < life q)
          (map (\<lambda>p. p\<lparr>part_x := part_x p + vel_x p, part_y := part_y p + vel_y p,
                      vel_y := vel_y p + 3 / 10, life := life p - 1\<rparr>)
             (particles (playingStep rnd s))))"
  by (simp add: gameLoop_def particleStep_fields particleStep_particles moveParticle_eq)

theorem tick_by_state_witness:
  "gameState gameOverGame \<noteq> Playing \<and>
   bird (gameLoop True halfRandom gameOverGame) = bird gameOverGame \<and>
   pipes (gameLoop True halfRandom gameOverGame) = pipes gameOverGame \<and>
   score (gameLoop True halfRandom gameOverGame) = 4 \<and>
   gameState (gameLoop True halfRandom gameOverGame) = GameOver \<and>
   map life (particles (gameLoop True halfRandom gameOverGame)) = [29] \<and>
   gameState scoringGame = Playing \<and>
   gameLoop True halfRandom scoringGame = particleStep (playingStep halfRandom scoringGame)"
proof -
  have g: "gameState gameOverGame \<noteq> Playing" by (simp add: gameOverGame_def)
  have pl: "gameState scoringGame = Playing" by (simp add: scoringGame_def)
  have a: "gameLoop True halfRandom scoringGame = particleStep (playingStep halfRandom scoringGame)"
    using tick_by_state [of scoringGame halfRandom] pl by blast
  show ?thesis
    using tick_by_state [of gameOverGame halfRandom] g pl a
    by (simp add: gameOverGame_def)
qed


section \<open>Particle lifetimes\<close>

text \<open>
  Claim C10. After the particle loop of a tick, run on any reachable state, every
  particle left in the sequence has \<open>1 \<le> life \<le> maxLife\<close> and \<open>maxLife = 30\<close>, so the
  opacity \<open>life / maxLife\<close> drawn for it is positive and at most \<open>1\<close>: a particle whose
  life reaches \<open>0\<close> is gone on that tick. The tick is the particle loop applied to what
  the rest of the step left, and the particle loop changes neither the bird, nor the
  pipes, nor the score, nor the state.
\<close>

theorem particle_life_bounds:
  "(reachable s \<longrightarrow>
      (\<forall>q \<in> set (particles (gameLoop True rnd s)).
         1 \<le> life q \<and> life q \<le> maxLife q \<and> maxLife q = 30 \<and>
         0 < life q / maxLife q \<and> life q / maxLife q \<le> 1)) \<and>
   gameLoop True rnd s = particleStep (if gameState s = Playing then playingStep rnd s else s) \<and>
   bird (particleStep u) = bird u \<and> pipes (particleStep u) = pipes u \<and>
   score (particleStep u) = score u \<and> gameState (particleStep u) = gameState u"
proof (intro conjI impI ballI)
  fix q
  assume r: "reachable s" and q: "q \<in> set (particles (gameLoop True rnd s))"
  let ?t = "if gameState s = Playing then playingStep rnd s else s"
  have inv: "\<forall>q \<in> set (particles ?t). maxLife q = 30 \<and> life q \<in> \<int> \<and> 1 \<le> life q \<and> life q \<le> 30"
  proof (cases "gameState s = Playing")
    case True
    then show ?thesis using playingStep_inv [OF reachable_particles [OF r], of rnd] by simp
  next
    case False
    then show ?thesis using reachable_particles [OF r] by simp
  qed
  have "gameLoop True rnd s = particleStep ?t" by (simp add: gameLoop_def)
  then have "q \<in> set (particles (particleStep ?t))" using q by simp
  then have *: "maxLife q = 30 \<and> life q \<in> \<int> \<and> 1 \<le> life q \<and> life q \<le> 30"
    using particleStep_inv [OF inv] by blast
  show "1 \<le> life q" using * by simp
  show "life q \<le> maxLife q" using * by simp
  show "maxLife q = 30" using * by simp
  show "0 < life q / maxLife q" using * by simp
  show "life q / maxLife q \<le> 1" using * by simp
next
  show "gameLoop True rnd s = particleStep (if gameState s = Playing then playingStep rnd s else s)"
    by (simp add: gameLoop_def)
qed (simp_all add: particleStep_fields)

theorem particle_life_bounds_witness:
  "reachable (jump halfRandom (jump halfRandom (initialGame None))) \<and>
   map life (particles (jump halfRandom (jump halfRandom (initialGame None)))) = [30, 30, 30, 30, 30] \<and>
   map life (particles (gameLoop True halfRandom (jump halfRandom (jump halfRandom (initialGame None)))))
     = [29, 29, 29, 29, 29] \<and>
   list_all (\<lambda>q. 1 \<le> life q \<and> life q \<le> maxLife q \<and> maxLife q = 30)
     (particles (gameLoop True halfRandom (jump halfRandom (jump halfRandom (initialGame None)))))"
proof -
  let ?s = "jump halfRandom (jump halfRandom (initialGame None))"
  have r: "reachable ?s"
    by (intro reachable.activate reachable.mount halfRandom_range)
  have a: "map life (particles ?s) = [30, 30, 30, 30, 30]"
    by (simp add: jump_def resetGame_def initialGame_def addParticles_eq upt_5 del: upt_Suc)
  have pl: "gameState ?s = Playing" by (simp add: jump_def resetGame_def initialGame_def)
  have b: "bird (playingStep halfRandom ?s) =
      \<lparr>bird_x = 150, bird_y = 288.6, velocity = - 11.4, rotation = - 30\<rparr>"
    by (simp add: playingStep_bird updateBird_def jump_def resetGame_def initialGame_def
        constants Let_def)
  have p: "pipes (playingStep halfRandom ?s) =
      [\<lparr>pipe_x = 800, topHeight = 200, bottomY = 400, passed = False\<rparr>]"
    by (simp add: playingStep_pipes jump_def resetGame_def initialGame_def generatePipe_half
        halfRandom_def)
  have n: "\<not> checkCollision (bird (playingStep halfRandom ?s)) (pipes (playingStep halfRandom ?s))"
    unfolding b p by (simp add: checkCollision_def constants)
  have "particles (playingStep halfRandom ?s) = particles ?s"
  proof -
    have "gameState (playingStep halfRandom ?s) = Playing"
      using n pl by (simp add: playingStep_collision)
    then show ?thesis
      by (auto simp: playingStep_def Let_def split: prod.splits if_splits)
  qed
  moreover have "particles ?s =
      [\<lparr>part_x = 135, part_y = 315, vel_x = 0, vel_y = - 2, life = 30, maxLife = 30\<rparr>,
       \<lparr>part_x = 135, part_y = 315, vel_x = 0, vel_y = - 2, life = 30, maxLife = 30\<rparr>,
       \<lparr>part_x = 135, part_y = 315, vel_x = 0, vel_y = - 2, life = 30, maxLife = 30\<rparr>,
       \<lparr>part_x = 135, part_y = 315, vel_x = 0, vel_y = - 2, life = 30, maxLife = 30\<rparr>,
       \<lparr>part_x = 135, part_y = 315, vel_x = 0, vel_y = - 2, life = 30, maxLife = 30\<rparr>]"
    by (simp add: jump_def resetGame_def initialGame_def addParticles_eq upt_5 halfRandom_def
        constants del: upt_Suc)
  ultimately have c: "map life (particles (gameLoop True halfRandom ?s)) = [29, 29, 29, 29, 29]"
    using pl by (simp add: gameLoop_def particleStep_particles moveParticle_eq)
  have "\<forall>q \<in> set (particles (gameLoop True halfRandom ?s)).
         1 \<le> life q \<and> life q \<le> maxLife q \<and> maxLife q = 30 \<and>
         0 < life q / maxLife q \<and> life q / maxLife q \<le> 1"
    using particle_life_bounds [of ?s halfRandom] r by blast
  then have d: "list_all (\<lambda>q. 1 \<le> life q \<and> life q \<le> maxLife q \<and> maxLife q = 30)
     (particles (gameLoop True halfRandom ?s))"
    unfolding list_all_iff by auto
  show ?thesis using r a c d by simp
qed


section \<open>Reading the persisted best score\<close>











end
